theory Spec2Isabelle
  imports Main
begin

section \<open>The Group class of group.py\<close>

text \<open>
  The module holds one class, \<open>Group\<close>: a finite carrier set and a binary operation,
  checked against the group axioms by \<open>__init__\<close>, with a few queries on top.

  Conventions of the embedding.
  \<^item> A Python set is given by the list of its members in the order in which the set
    object iterates. Python leaves that order unspecified, so no statement below fixes
    it: the argument \<open>es\<close> of \<open>Group_init\<close> is the iteration sequence of
    \<open>set(elems)\<close> (line 14), a list without repetitions. No statement below needs
    that the list is free of repetitions: each holds for an arbitrary list, hence for
    every set in every iteration order. Membership (\<open>in\<close>) is membership in the
    set of the list.
  \<^item> Equality of elements (\<open>==\<close>) is HOL equality.
  \<^item> The operation handed to the constructor is a Python object: whether it is
    callable, how many parameters its signature declares, its \<open>__name__\<close> if it has
    one, and what it returns when called with two positional arguments. It is pure,
    deterministic and total (a HOL function).
  \<^item> Exceptions are values: a method that can raise returns \<open>error + 'a\<close>.
\<close>

datatype error =
    TypeError string
  | ValueError string
  | AttributeError string
  | StopIteration

record 'a operation =
  op_callable :: bool
  op_parameters :: nat
  op_name :: "string option"
  op_call :: "'a \<Rightarrow> 'a \<Rightarrow> 'a"

record 'a Group =
  self_elems :: "'a list"
  self_op :: "'a operation"
  self_e :: 'a


subsection \<open>Construction (lines 13 to 41)\<close>

text \<open>
  \<open>product(self._elems, repeat=2)\<close> and \<open>repeat=3\<close> enumerate pairs and triples with
  the leftmost component varying slowest, as \<open>List.product\<close> does. \<open>any\<close> and \<open>all\<close>
  over a generator are \<open>list_ex\<close> and \<open>list_all\<close>; the \<open>for ... else\<close> loop that
  keeps the first candidate is \<open>find\<close>. The chained comparison
  \<open>op(e, a) == op(a, e) == a\<close> is the conjunction of its two halves.
\<close>

definition is_assoc :: "('a \<Rightarrow> 'a \<Rightarrow> 'a) \<Rightarrow> 'a \<Rightarrow> 'a \<Rightarrow> 'a \<Rightarrow> bool" where
  "is_assoc f x y z = (f (f x y) z = f x (f y z))"

definition has_inverse :: "('a \<Rightarrow> 'a \<Rightarrow> 'a) \<Rightarrow> 'a list \<Rightarrow> 'a \<Rightarrow> 'a \<Rightarrow> bool" where
  "has_inverse f es e x = list_ex (\<lambda>a. f x a = e) es"

definition Group_init :: "'a list \<Rightarrow> 'a operation \<Rightarrow> error + 'a Group" where
  "Group_init es op =
     (if \<not> op_callable op \<or> op_parameters op \<noteq> 2
      then Inl (TypeError ''operation must be callable and take 2 arguments'')
      else
        let f = op_call op in
        if list_ex (\<lambda>(a, b). f a b \<notin> set es) (List.product es es)
        then Inl (TypeError ''the closure property is not satisfied'')
        else if list_ex (\<lambda>(a, b, c). \<not> is_assoc f a b c)
                  (List.product es (List.product es es))
        then Inl (TypeError ''the associativity property is not satisfied'')
        else
          case find (\<lambda>e. list_all (\<lambda>a. f e a = f a e \<and> f a e = a) es) es of
            None \<Rightarrow> Inl (TypeError ''the identity property is not satisfied'')
          | Some e \<Rightarrow>
              if list_ex (\<lambda>a. \<not> has_inverse f es e a) es
              then Inl (TypeError ''the inverse property is not satisfied'')
              else Inr \<lparr>self_elems = es, self_op = op, self_e = e\<rparr>)"


subsection \<open>Properties and protocol methods (lines 43 to 70)\<close>

definition Group_elems :: "'a Group \<Rightarrow> 'a list" where
  "Group_elems g = self_elems g"

definition Group_identity :: "'a Group \<Rightarrow> 'a" where
  "Group_identity g = self_e g"

text \<open>
  The two string conversions format the set and the operation's \<open>__name__\<close>. The
  text of an element is a parameter \<open>rp\<close> (its \<open>repr\<close>); an empty set prints as
  \<open>set()\<close>. A callable without \<open>__name__\<close> makes both conversions raise.
\<close>

fun join :: "string \<Rightarrow> string list \<Rightarrow> string" where
  "join sep [] = []"
| "join sep [s] = s"
| "join sep (s # t # ss) = s @ sep @ join sep (t # ss)"

definition set_repr :: "('a \<Rightarrow> string) \<Rightarrow> 'a list \<Rightarrow> string" where
  "set_repr rp es =
     (if es = [] then ''set()'' else ''{'' @ join '', '' (map rp es) @ ''}'')"

definition Group_repr :: "('a \<Rightarrow> string) \<Rightarrow> 'a Group \<Rightarrow> error + string" where
  "Group_repr rp g =
     (case op_name (self_op g) of
        None \<Rightarrow> Inl (AttributeError ''__name__'')
      | Some n \<Rightarrow> Inr (''Group('' @ set_repr rp (self_elems g) @ '', '' @ n @ '')''))"

definition Group_str :: "('a \<Rightarrow> string) \<Rightarrow> 'a Group \<Rightarrow> error + string" where
  "Group_str rp g =
     (case op_name (self_op g) of
        None \<Rightarrow> Inl (AttributeError ''__name__'')
      | Some n \<Rightarrow> Inr (''<'' @ set_repr rp (self_elems g) @ '', '' @ n @ ''>''))"

definition Group_iter :: "'a Group \<Rightarrow> 'a list" where
  "Group_iter g = self_elems g"

text \<open>
  \<open>__lt__\<close> compares the carrier with the carrier of another Group, or with a raw
  set; \<open><\<close> on Python sets is the proper-subset test.
\<close>

datatype 'a other = OtherGroup "'a Group" | OtherSet "'a list"

definition Group_lt :: "'a Group \<Rightarrow> 'a other \<Rightarrow> bool" where
  "Group_lt g other =
     (case other of
        OtherGroup h \<Rightarrow> set (self_elems g) \<subset> set (Group_elems h)
      | OtherSet s \<Rightarrow> set (self_elems g) \<subset> set s)"

definition Group_contains :: "'a Group \<Rightarrow> 'a \<Rightarrow> bool" where
  "Group_contains g elem = (elem \<in> set (self_elems g))"

definition Group_len :: "'a Group \<Rightarrow> nat" where
  "Group_len g = length (self_elems g)"


subsection \<open>operate, inverse, is_abelian (lines 72 to 83)\<close>

text \<open>
  \<open>reduce(f, xs)\<close> without an initial value folds from the left, starting with the
  first item, and raises on an empty sequence. \<open>next\<close> on a generator expression
  returns the first item that passes the filter and raises \<open>StopIteration\<close> when
  there is none.
\<close>

fun reduce :: "('a \<Rightarrow> 'a \<Rightarrow> 'a) \<Rightarrow> 'a list \<Rightarrow> error + 'a" where
  "reduce f [] = Inl (TypeError ''reduce() of empty iterable with no initial value'')"
| "reduce f (x # xs) = Inr (foldl f x xs)"

definition Group_operate :: "'a Group \<Rightarrow> 'a list \<Rightarrow> error + 'a" where
  "Group_operate g elems =
     (if list_ex (\<lambda>elem. elem \<notin> set (self_elems g)) elems
      then Inl (ValueError ''all elements must be members of the group'')
      else reduce (op_call (self_op g)) elems)"

definition Group_inverse :: "'a Group \<Rightarrow> 'a \<Rightarrow> error + 'a" where
  "Group_inverse g elem =
     (if elem \<notin> set (self_elems g)
      then Inl (ValueError ''the element provided is not a member of the group'')
      else
        case find (\<lambda>a. op_call (self_op g) a elem = self_e g) (self_elems g) of
          None \<Rightarrow> Inl StopIteration
        | Some a \<Rightarrow> Inr a)"

definition Group_is_abelian :: "'a Group \<Rightarrow> bool" where
  "Group_is_abelian g =
     list_all (\<lambda>(a, b). op_call (self_op g) a b = op_call (self_op g) b a)
       (List.product (self_elems g) (self_elems g))"


subsection \<open>Method calls on an object\<close>

text \<open>
  A call of a method takes the state of the object (its three attributes) and gives
  the value returned or the exception raised, together with the state the object is
  left in. No method body of the class assigns to \<open>self._elems\<close>, \<open>self.op\<close> or
  \<open>self.e\<close>; the operation called by \<open>operate\<close>, \<open>inverse\<close> and \<open>is_abelian\<close> is
  pure.
\<close>

datatype 'a call =
    Elems
  | Identity
  | Repr
  | Str
  | Iter
  | Lt "'a other"
  | Contains 'a
  | Len
  | Operate "'a list"
  | Inverse 'a
  | IsAbelian

datatype 'a result =
    RSet "'a list"
  | RElem 'a
  | RStr string
  | RIter "'a list"
  | RBool bool
  | RInt nat
  | Raise error

definition returned :: "('b \<Rightarrow> 'a result) \<Rightarrow> error + 'b \<Rightarrow> 'a result" where
  "returned k r = (case r of Inl err \<Rightarrow> Raise err | Inr v \<Rightarrow> k v)"

fun exec :: "('a \<Rightarrow> string) \<Rightarrow> 'a call \<Rightarrow> 'a Group \<Rightarrow> 'a result \<times> 'a Group" where
  "exec rp Elems g = (RSet (Group_elems g), g)"
| "exec rp Identity g = (RElem (Group_identity g), g)"
| "exec rp Repr g = (returned RStr (Group_repr rp g), g)"
| "exec rp Str g = (returned RStr (Group_str rp g), g)"
| "exec rp Iter g = (RIter (Group_iter g), g)"
| "exec rp (Lt other) g = (RBool (Group_lt g other), g)"
| "exec rp (Contains elem) g = (RBool (Group_contains g elem), g)"
| "exec rp Len g = (RInt (Group_len g), g)"
| "exec rp (Operate elems) g = (returned RElem (Group_operate g elems), g)"
| "exec rp (Inverse elem) g = (returned RElem (Group_inverse g elem), g)"
| "exec rp IsAbelian g = (RBool (Group_is_abelian g), g)"

fun run :: "('a \<Rightarrow> string) \<Rightarrow> 'a call list \<Rightarrow> 'a Group \<Rightarrow> 'a Group" where
  "run rp [] g = g"
| "run rp (c # cs) g = run rp cs (snd (exec rp c g))"


subsection \<open>Objects and equality\<close>

text \<open>
  \<open>Group(elems, op)\<close> creates a new object and runs \<open>__init__\<close> on it; when
  \<open>__init__\<close> raises, no object is handed out. Objects live in a heap and are known
  by their references; a fresh object gets the next free reference.

  The class is decorated with \<open>functools.total_ordering\<close> and defines \<open>__lt__\<close>
  only. The decorator fills in \<open>__le__\<close>, \<open>__gt__\<close> and \<open>__ge__\<close>; it never defines
  \<open>__eq__\<close>. The class defines no \<open>__eq__\<close> either, so \<open>==\<close> between two Groups is
  the one inherited from \<open>object\<close>: true exactly when both operands are the same
  object.
\<close>

type_synonym ref = nat

type_synonym 'a heap = "'a Group list"

definition Group_new :: "'a heap \<Rightarrow> 'a list \<Rightarrow> 'a operation \<Rightarrow> error + (ref \<times> 'a heap)" where
  "Group_new h es op =
     (case Group_init es op of
        Inl err \<Rightarrow> Inl err
      | Inr g \<Rightarrow> Inr (length h, h @ [g]))"

definition Group_eq :: "ref \<Rightarrow> ref \<Rightarrow> bool" where
  "Group_eq r1 r2 = (r1 = r2)"

definition ref_lt :: "'a heap \<Rightarrow> ref \<Rightarrow> ref \<Rightarrow> bool" where
  "ref_lt h r1 r2 = Group_lt (h ! r1) (OtherGroup (h ! r2))"

text \<open>
  The three methods the decorator adds to a class whose root is \<open>__lt__\<close>, as
  \<open>functools\<close> defines them: \<open>a <= b\<close> is \<open>a < b or a == b\<close>, \<open>a > b\<close> is
  \<open>not a < b and a != b\<close>, and \<open>a >= b\<close> is \<open>not a < b\<close>. They fit together only
  when \<open>==\<close> agrees with \<open><\<close>.
\<close>

definition ref_le :: "'a heap \<Rightarrow> ref \<Rightarrow> ref \<Rightarrow> bool" where
  "ref_le h r1 r2 = (ref_lt h r1 r2 \<or> Group_eq r1 r2)"

definition ref_gt :: "'a heap \<Rightarrow> ref \<Rightarrow> ref \<Rightarrow> bool" where
  "ref_gt h r1 r2 = (\<not> ref_lt h r1 r2 \<and> \<not> Group_eq r1 r2)"

definition ref_ge :: "'a heap \<Rightarrow> ref \<Rightarrow> ref \<Rightarrow> bool" where
  "ref_ge h r1 r2 = (\<not> ref_lt h r1 r2)"


subsection \<open>Example operations\<close>

text \<open>Addition modulo 4 and plain addition on Python integers, as lambdas.\<close>

definition add_mod4 :: "int operation" where
  "add_mod4 =
     \<lparr>op_callable = True, op_parameters = 2, op_name = Some ''<lambda>'',
      op_call = (\<lambda>a b. (a + b) mod 4)\<rparr>"

definition add_plain :: "int operation" where
  "add_plain =
     \<lparr>op_callable = True, op_parameters = 2, op_name = Some ''<lambda>'',
      op_call = (\<lambda>a b. a + b)\<rparr>"

definition Z4 :: "int Group" where
  "Z4 = \<lparr>self_elems = [0, 1, 2, 3], self_op = add_mod4, self_e = 0\<rparr>"


section \<open>What a successful construction establishes\<close>

lemma find_exists_Some: "\<exists>x\<in>set xs. P x \<Longrightarrow> \<exists>y. find P xs = Some y"
  by (cases "find P xs") (auto simp: find_None_iff)

lemma find_Some_holds: "find P xs = Some x \<Longrightarrow> x \<in> set xs \<and> P x"
  by (auto simp: find_Some_iff)

text \<open>Construction succeeds exactly when all five checks pass.\<close>

lemma Group_init_Inr_iff:
  "Group_init es op = Inr g \<longleftrightarrow>
     op_callable op \<and> op_parameters op = 2 \<and>
     (\<forall>a\<in>set es. \<forall>b\<in>set es. op_call op a b \<in> set es) \<and>
     (\<forall>a\<in>set es. \<forall>b\<in>set es. \<forall>c\<in>set es.
        op_call op (op_call op a b) c = op_call op a (op_call op b c)) \<and>
     (\<exists>e. find (\<lambda>e. list_all (\<lambda>a. op_call op e a = op_call op a e \<and> op_call op a e = a) es) es
            = Some e \<and>
          (\<forall>a\<in>set es. \<exists>b\<in>set es. op_call op a b = e) \<and>
          g = \<lparr>self_elems = es, self_op = op, self_e = e\<rparr>)"
  unfolding Group_init_def Let_def has_inverse_def is_assoc_def
  by (auto simp: list_ex_iff list_all_iff split: option.splits)

lemma init_fields:
  assumes "Group_init es op = Inr g"
  shows "self_elems g = es" and "self_op g = op"
  using assms by (auto simp: Group_init_Inr_iff)

lemma init_closure:
  assumes "Group_init es op = Inr g" and "a \<in> set es" and "b \<in> set es"
  shows "op_call op a b \<in> set es"
  using assms by (auto simp: Group_init_Inr_iff)

lemma init_assoc:
  assumes "Group_init es op = Inr g" and "a \<in> set es" and "b \<in> set es" and "c \<in> set es"
  shows "op_call op (op_call op a b) c = op_call op a (op_call op b c)"
  using assms by (auto simp: Group_init_Inr_iff)

lemma init_identity:
  assumes "Group_init es op = Inr g"
  shows "self_e g \<in> set es"
    and "a \<in> set es \<Longrightarrow> op_call op (self_e g) a = a"
    and "a \<in> set es \<Longrightarrow> op_call op a (self_e g) = a"
proof -
  from assms obtain e where
    f: "find (\<lambda>e. list_all (\<lambda>a. op_call op e a = op_call op a e \<and> op_call op a e = a) es) es = Some e"
    and g: "g = \<lparr>self_elems = es, self_op = op, self_e = e\<rparr>"
    by (auto simp: Group_init_Inr_iff)
  from find_Some_holds [OF f]
  have e: "e \<in> set es" and all: "\<forall>a\<in>set es. op_call op e a = op_call op a e \<and> op_call op a e = a"
    by (simp_all add: list_all_iff)
  show "self_e g \<in> set es" using e g by simp
  show "a \<in> set es \<Longrightarrow> op_call op (self_e g) a = a" using all g by simp
  show "a \<in> set es \<Longrightarrow> op_call op a (self_e g) = a" using all g by simp
qed

lemma init_right_inverse:
  assumes "Group_init es op = Inr g" and "a \<in> set es"
  shows "\<exists>b\<in>set es. op_call op a b = self_e g"
  using assms by (auto simp: Group_init_Inr_iff)

text \<open>
  The inverse check looks for a right inverse, \<open>op(x, a) == e\<close>; the \<open>inverse\<close> method
  looks for a left one, \<open>op(a, elem) == e\<close>. With closure, associativity and a
  two-sided identity, the right inverse \<open>b\<close> of \<open>a\<close> is also a left inverse: with \<open>c\<close>
  a right inverse of \<open>b\<close>, \<open>b a = (b a)(b c) = (b (a b)) c = b c = e\<close>.
\<close>

lemma init_left_inverse:
  assumes v: "Group_init es op = Inr g" and a: "a \<in> set es"
  shows "\<exists>b\<in>set es. op_call op b a = self_e g"
proof -
  let ?f = "op_call op" and ?e = "self_e g"
  from init_right_inverse [OF v a] obtain b where b: "b \<in> set es" and ab: "?f a b = ?e"
    by blast
  from init_right_inverse [OF v b] obtain c where c: "c \<in> set es" and bc: "?f b c = ?e"
    by blast
  have ba: "?f b a \<in> set es" by (rule init_closure [OF v b a])
  have "?f b a = ?f (?f b a) ?e" using init_identity(3) [OF v ba] by simp
  also have "\<dots> = ?f (?f b a) (?f b c)" by (simp only: bc)
  also have "\<dots> = ?f (?f (?f b a) b) c" by (rule init_assoc [OF v ba b c, symmetric])
  also have "?f (?f b a) b = ?f b (?f a b)" by (rule init_assoc [OF v b a b])
  also have "\<dots> = b" using ab init_identity(3) [OF v b] by simp
  finally have "?f b a = ?e" using bc by simp
  with b show ?thesis by blast
qed

text \<open>Conversely, a closed associative operation with identity and right inverses is accepted,
  and the identity cached is that identity, whatever the iteration order.\<close>

lemma Group_init_complete:
  assumes c: "op_callable op" and p: "op_parameters op = 2"
    and clo: "\<forall>a\<in>set es. \<forall>b\<in>set es. op_call op a b \<in> set es"
    and ass: "\<forall>a\<in>set es. \<forall>b\<in>set es. \<forall>c\<in>set es.
        op_call op (op_call op a b) c = op_call op a (op_call op b c)"
    and e: "e \<in> set es"
    and idn: "\<forall>a\<in>set es. op_call op e a = a \<and> op_call op a e = a"
    and inv: "\<forall>a\<in>set es. \<exists>b\<in>set es. op_call op a b = e"
  shows "Group_init es op = Inr \<lparr>self_elems = es, self_op = op, self_e = e\<rparr>"
proof -
  let ?P = "\<lambda>e. list_all (\<lambda>a. op_call op e a = op_call op a e \<and> op_call op a e = a) es"
  from idn have "?P e" by (simp add: list_all_iff)
  with e have "\<exists>x\<in>set es. ?P x" by blast
  from find_exists_Some [of es ?P, OF this] obtain e' where f: "find ?P es = Some e'" ..
  from find_Some_holds [OF f] have e': "e' \<in> set es" and P: "?P e'" by simp_all
  from P e have "op_call op e' e = e" by (auto simp: list_all_iff)
  moreover from idn e' have "op_call op e' e = e'" by simp
  ultimately have "e' = e" by simp
  with f c p clo ass inv show ?thesis by (simp add: Group_init_Inr_iff)
qed

lemma closure_violation:
  assumes "op_callable op" and "op_parameters op = 2"
    and "a \<in> set es" and "b \<in> set es" and "op_call op a b \<notin> set es"
  shows "Group_init es op = Inl (TypeError ''the closure property is not satisfied'')"
proof -
  from assms(3-5) have "list_ex (\<lambda>(a, b). op_call op a b \<notin> set es) (List.product es es)"
    by (auto simp: list_ex_iff)
  with assms(1,2) show ?thesis by (simp add: Group_init_def)
qed

lemma foldl_closed:
  assumes "\<And>a b. a \<in> S \<Longrightarrow> b \<in> S \<Longrightarrow> f a b \<in> S"
  shows "x \<in> S \<Longrightarrow> set xs \<subseteq> S \<Longrightarrow> foldl f x xs \<in> S"
  using assms by (induction xs arbitrary: x) auto

lemma reduce_not_ValueError: "reduce f xs \<noteq> Inl (ValueError m)"
  by (cases xs) simp_all

lemma exec_state: "snd (exec rp c g) = g"
  by (cases c) simp_all

lemma run_state: "run rp cs g = g"
  by (induction cs) (simp_all add: exec_state)

subsection \<open>The examples, evaluated\<close>

lemma Group_init_Z4: "Group_init [0, 1, 2, 3] add_mod4 = Inr Z4"
  by (simp add: Group_init_def add_mod4_def Z4_def is_assoc_def has_inverse_def)

lemma add_mod4_simps:
  "op_callable add_mod4" "op_parameters add_mod4 = 2" "op_call add_mod4 a b = (a + b) mod 4"
  by (simp_all add: add_mod4_def)

lemma Z4_any_order:
  assumes s: "set es = {0, 1, 2, 3}"
  shows "Group_init es add_mod4 = Inr \<lparr>self_elems = es, self_op = add_mod4, self_e = 0\<rparr>"
proof (rule Group_init_complete)
  show "op_callable add_mod4" "op_parameters add_mod4 = 2" by (simp_all add: add_mod4_simps)
  show "\<forall>a\<in>set es. \<forall>b\<in>set es. op_call add_mod4 a b \<in> set es"
    by (simp add: s add_mod4_simps)
  show "\<forall>a\<in>set es. \<forall>b\<in>set es. \<forall>c\<in>set es.
      op_call add_mod4 (op_call add_mod4 a b) c = op_call add_mod4 a (op_call add_mod4 b c)"
    by (simp add: add_mod4_simps mod_simps ac_simps)
  show "0 \<in> set es" by (simp add: s)
  show "\<forall>a\<in>set es. op_call add_mod4 0 a = a \<and> op_call add_mod4 a 0 = a"
    by (simp add: s add_mod4_simps)
  show "\<forall>a\<in>set es. \<exists>b\<in>set es. op_call add_mod4 a b = 0"
    by (simp add: s add_mod4_simps)
qed

lemma Z4_inverse_unique:
  assumes s: "set es = {0, 1, 2, 3}" and x: "x \<in> {0, 1, 2, 3}"
  shows "Group_inverse \<lparr>self_elems = es, self_op = add_mod4, self_e = 0\<rparr> x = Inr ((4 - x) mod 4)"
proof -
  let ?P = "\<lambda>a. op_call add_mod4 a x = 0"
  have "(4 - x) mod 4 \<in> set es" "?P ((4 - x) mod 4)" using x by (auto simp: s add_mod4_simps)
  then have "\<exists>a\<in>set es. ?P a" by blast
  from find_exists_Some [of es ?P, OF this] obtain b where f: "find ?P es = Some b" ..
  from find_Some_holds [OF f] have "b \<in> {0, 1, 2, 3}" "(b + x) mod 4 = 0"
    by (simp_all add: s add_mod4_simps)
  with x have "b = (4 - x) mod 4" by auto
  with f x show ?thesis by (simp add: Group_inverse_def s)
qed


section \<open>The claims\<close>

text \<open>
  In each statement a validly constructed Group is a \<open>g\<close> with
  \<open>Group_init es op = Inr g\<close>.
\<close>

subsection \<open>C1: the search of inverse never runs dry\<close>

text \<open>
  C1. For a validly constructed Group and a member \<open>elem\<close> of its carrier, some member
  \<open>a\<close> has \<open>op(a, elem) == e\<close>; the generator handed to \<open>next\<close> in \<open>inverse\<close> therefore
  yields an item, and \<open>inverse(elem)\<close> does not raise \<open>StopIteration\<close>.
\<close>

theorem inverse_search_finds_candidate:
  assumes "Group_init es op = Inr g" and "elem \<in> set (self_elems g)"
  shows "(\<exists>a\<in>set (self_elems g). op_call (self_op g) a elem = self_e g) \<and>
         find (\<lambda>a. op_call (self_op g) a elem = self_e g) (self_elems g) \<noteq> None \<and>
         Group_inverse g elem \<noteq> Inl StopIteration"
proof -
  have el: "self_elems g = es" and o: "self_op g = op" using init_fields [OF assms(1)] by simp_all
  from assms(2) el have "elem \<in> set es" by simp
  from init_left_inverse [OF assms(1) this]
  have ex: "\<exists>a\<in>set (self_elems g). op_call (self_op g) a elem = self_e g" by (simp add: el o)
  from find_exists_Some [of "self_elems g" "\<lambda>a. op_call (self_op g) a elem = self_e g", OF ex]
  obtain y where y: "find (\<lambda>a. op_call (self_op g) a elem = self_e g) (self_elems g) = Some y" ..
  with assms(2) have "Group_inverse g elem = Inr y" by (simp add: Group_inverse_def)
  with ex y show ?thesis by simp
qed

theorem inverse_search_finds_candidate_witness:
  "Group_init [0, 1, 2, 3] add_mod4 = Inr Z4 \<and> 1 \<in> set (self_elems Z4) \<and>
   op_call (self_op Z4) 3 1 = self_e Z4 \<and>
   find (\<lambda>a. op_call (self_op Z4) a 1 = self_e Z4) (self_elems Z4) \<noteq> None \<and>
   Group_inverse Z4 1 \<noteq> Inl StopIteration"
proof -
  have m: "1 \<in> set (self_elems Z4)" by (simp add: Z4_def)
  have "op_call (self_op Z4) 3 1 = self_e Z4" by (simp add: Z4_def add_mod4_def)
  with inverse_search_finds_candidate [OF Group_init_Z4 m] Group_init_Z4 m
  show ?thesis by simp
qed


subsection \<open>C2: comparison of two Groups with the same elements\<close>

text \<open>
  C2. Two validly constructed Groups with identical element sets should compare equal,
  whatever their operations. The code does not do that. Take two Groups built one after
  the other from the elements 0, 1, 2, 3 and addition modulo 4. Their element sets are
  the same and neither is \<open><\<close> the other, but \<open>==\<close> between them is false, because
  the class defines no \<open>__eq__\<close> for the derived comparisons to rest on. The derived
  comparisons then contradict each other: each Group is \<open>>\<close> the other, the first is
  \<open>>=\<close> the second, and yet it is not \<open><=\<close> the second.
\<close>

theorem equal_element_sets_compare_unequal:
  "Group_new [] [0, 1, 2, 3] add_mod4 = Inr (0, [Z4]) \<and>
   Group_new [Z4] [0, 1, 2, 3] add_mod4 = Inr (1, [Z4, Z4]) \<and>
   set (Group_elems ([Z4, Z4] ! 0)) = set (Group_elems ([Z4, Z4] ! 1)) \<and>
   \<not> ref_lt [Z4, Z4] 0 1 \<and> \<not> ref_lt [Z4, Z4] 1 0 \<and>
   \<not> Group_eq 0 1 \<and>
   ref_gt [Z4, Z4] 0 1 \<and> ref_gt [Z4, Z4] 1 0 \<and>
   ref_ge [Z4, Z4] 0 1 \<and> \<not> ref_le [Z4, Z4] 0 1"
  by (simp add: Group_new_def Group_init_Z4 Group_eq_def ref_lt_def ref_le_def ref_gt_def
      ref_ge_def Group_lt_def Group_elems_def)


subsection \<open>C3: the cached identity\<close>

text \<open>
  C3. For a validly constructed Group, the cached identity \<open>e\<close> is a member of the
  carrier and \<open>op(e, a) == a\<close> and \<open>op(a, e) == a\<close> for every member \<open>a\<close>; the same
  holds through \<open>operate(e, a)\<close> and \<open>operate(a, e)\<close>.
\<close>

theorem identity_is_two_sided:
  assumes "Group_init es op = Inr g" and "a \<in> set (Group_elems g)"
  shows "Group_identity g \<in> set (Group_elems g) \<and>
         op_call (self_op g) (Group_identity g) a = a \<and>
         op_call (self_op g) a (Group_identity g) = a \<and>
         Group_operate g [Group_identity g, a] = Inr a \<and>
         Group_operate g [a, Group_identity g] = Inr a"
  using assms init_fields [OF assms(1)] init_identity [OF assms(1)]
  by (simp add: Group_elems_def Group_identity_def Group_operate_def)

theorem identity_is_two_sided_witness:
  "Group_init [0, 1, 2, 3] add_mod4 = Inr Z4 \<and> 3 \<in> set (Group_elems Z4) \<and>
   Group_identity Z4 = 0 \<and>
   op_call (self_op Z4) (Group_identity Z4) 3 = 3 \<and>
   op_call (self_op Z4) 3 (Group_identity Z4) = 3 \<and>
   Group_operate Z4 [Group_identity Z4, 3] = Inr 3 \<and>
   Group_operate Z4 [3, Group_identity Z4] = Inr 3"
proof -
  have m: "3 \<in> set (Group_elems Z4)" by (simp add: Group_elems_def Z4_def)
  have i: "Group_identity Z4 = 0" by (simp add: Group_identity_def Z4_def)
  from identity_is_two_sided [OF Group_init_Z4 m] Group_init_Z4 m i show ?thesis by simp
qed


subsection \<open>C4: what inverse returns\<close>

text \<open>
  C4. For a validly constructed Group and a member \<open>elem\<close>, \<open>inverse(elem)\<close> returns a
  member \<open>b\<close> of the carrier with \<open>op(b, elem) == identity\<close>, and \<open>b\<close> is the first such
  member in the iteration order of the set: no member before it qualifies.
\<close>

theorem inverse_returns_first_left_inverse:
  assumes "Group_init es op = Inr g" and "elem \<in> set (self_elems g)"
  shows "\<exists>b. Group_inverse g elem = Inr b \<and> b \<in> set (self_elems g) \<and>
             op_call (self_op g) b elem = Group_identity g \<and>
             (\<exists>i<length (self_elems g). self_elems g ! i = b \<and>
                (\<forall>j<i. op_call (self_op g) (self_elems g ! j) elem \<noteq> Group_identity g))"
proof -
  have el: "self_elems g = es" and o: "self_op g = op" using init_fields [OF assms(1)] by simp_all
  from assms(2) el have "elem \<in> set es" by simp
  from init_left_inverse [OF assms(1) this]
  have ex: "\<exists>a\<in>set (self_elems g). op_call (self_op g) a elem = self_e g" by (simp add: el o)
  from find_exists_Some [of "self_elems g" "\<lambda>a. op_call (self_op g) a elem = self_e g", OF ex]
  obtain b where b: "find (\<lambda>a. op_call (self_op g) a elem = self_e g) (self_elems g) = Some b" ..
  with assms(2) have r: "Group_inverse g elem = Inr b" by (simp add: Group_inverse_def)
  from b obtain i where "i < length (self_elems g)" "self_elems g ! i = b"
     "op_call (self_op g) b elem = self_e g"
     "\<forall>j<i. op_call (self_op g) (self_elems g ! j) elem \<noteq> self_e g"
    by (auto simp: find_Some_iff)
  with r show ?thesis by (auto simp: Group_identity_def)
qed

theorem inverse_returns_first_left_inverse_witness:
  "Group_init [0, 1, 2, 3] add_mod4 = Inr Z4 \<and> 1 \<in> set (self_elems Z4) \<and>
   Group_inverse Z4 1 = Inr 3 \<and> 3 \<in> set (self_elems Z4) \<and>
   op_call (self_op Z4) 3 1 = Group_identity Z4 \<and> self_elems Z4 ! 3 = 3"
proof -
  have m: "1 \<in> set (self_elems Z4)" by (simp add: Z4_def)
  from inverse_returns_first_left_inverse [OF Group_init_Z4 m]
  obtain b where b: "Group_inverse Z4 1 = Inr b" by blast
  have "Group_inverse Z4 1 = Inr 3"
    by (simp add: Group_inverse_def Z4_def add_mod4_def)
  moreover have "op_call (self_op Z4) 3 1 = Group_identity Z4"
    by (simp add: Group_identity_def Z4_def add_mod4_def)
  moreover have "3 \<in> set (self_elems Z4)" "self_elems Z4 ! 3 = 3" by (simp_all add: Z4_def)
  ultimately show ?thesis using Group_init_Z4 m b by simp
qed


subsection \<open>C5: operate is the left fold\<close>

text \<open>
  C5. For a validly constructed Group and arguments \<open>e1, ..., en\<close> (at least one), all
  members of the carrier, \<open>operate(e1, ..., en)\<close> returns the left fold
  \<open>op(...op(op(e1, e2), e3)..., en)\<close>, and that value is a member of the carrier.
\<close>

theorem operate_is_left_fold:
  assumes "Group_init es op = Inr g" and "set (e1 # rest) \<subseteq> set (Group_elems g)"
  shows "Group_operate g (e1 # rest) = Inr (foldl (op_call (self_op g)) e1 rest) \<and>
         foldl (op_call (self_op g)) e1 rest \<in> set (Group_elems g)"
proof -
  have el: "self_elems g = es" and o: "self_op g = op" using init_fields [OF assms(1)] by simp_all
  from assms(2) el have m: "e1 \<in> set es" "set rest \<subseteq> set es" by (simp_all add: Group_elems_def)
  have "foldl (op_call op) e1 rest \<in> set es"
    by (rule foldl_closed [OF init_closure [OF assms(1)] m])
  moreover from m have "\<not> list_ex (\<lambda>elem. elem \<notin> set es) (e1 # rest)"
    by (auto simp: list_ex_iff)
  ultimately show ?thesis by (simp add: Group_operate_def Group_elems_def el o)
qed

theorem operate_is_left_fold_witness:
  "Group_init [0, 1, 2, 3] add_mod4 = Inr Z4 \<and> set (1 # [2, 3, 3]) \<subseteq> set (Group_elems Z4) \<and>
   Group_operate Z4 [1, 2, 3, 3] = Inr 1 \<and>
   foldl (op_call (self_op Z4)) 1 [2, 3, 3] = 1 \<and> 1 \<in> set (Group_elems Z4)"
proof -
  have m: "set (1 # [2, 3, 3]) \<subseteq> set (Group_elems Z4)" by (simp add: Group_elems_def Z4_def)
  have v: "foldl (op_call (self_op Z4)) 1 [2, 3, 3] = 1" by (simp add: Z4_def add_mod4_def)
  from operate_is_left_fold [OF Group_init_Z4 m] Group_init_Z4 m v show ?thesis by simp
qed


subsection \<open>C6: the membership error\<close>

text \<open>
  C6. For a validly constructed Group, \<open>operate\<close> raises a \<open>ValueError\<close> exactly when
  some argument is not a member of the carrier, and \<open>inverse\<close> raises one exactly when
  its argument is not a member; either call, failing or not, leaves the elements, the
  operation and the identity of the Group as they were.
\<close>

theorem membership_error_iff_nonmember:
  assumes "Group_init es op = Inr g"
  shows "((\<exists>m. Group_operate g elems = Inl (ValueError m)) \<longleftrightarrow>
            (\<exists>x\<in>set elems. x \<notin> set (Group_elems g))) \<and>
         ((\<exists>m. Group_inverse g elem = Inl (ValueError m)) \<longleftrightarrow> elem \<notin> set (Group_elems g)) \<and>
         snd (exec rp (Operate elems) g) = g \<and>
         snd (exec rp (Inverse elem) g) = g"
  by (auto simp: Group_operate_def Group_inverse_def Group_elems_def list_ex_iff
      reduce_not_ValueError split: option.splits)

theorem membership_error_iff_nonmember_witness:
  "Group_init [0, 1, 2, 3] add_mod4 = Inr Z4 \<and>
   Group_operate Z4 [1, 5] = Inl (ValueError ''all elements must be members of the group'') \<and>
   5 \<notin> set (Group_elems Z4) \<and>
   Group_inverse Z4 5 = Inl (ValueError ''the element provided is not a member of the group'') \<and>
   exec (\<lambda>x. ''?'') (Operate [1, 5]) Z4 =
     (Raise (ValueError ''all elements must be members of the group''), Z4) \<and>
   exec (\<lambda>x. ''?'') (Inverse 5) Z4 =
     (Raise (ValueError ''the element provided is not a member of the group''), Z4)"
proof -
  note t = membership_error_iff_nonmember [OF Group_init_Z4, of "[1, 5]" 5 "\<lambda>x. ''?''"]
  have "5 \<notin> set (Group_elems Z4)" by (simp add: Group_elems_def Z4_def)
  moreover have "Group_operate Z4 [1, 5] = Inl (ValueError ''all elements must be members of the group'')"
    by (simp add: Group_operate_def Z4_def)
  moreover have "Group_inverse Z4 5 = Inl (ValueError ''the element provided is not a member of the group'')"
    by (simp add: Group_inverse_def Z4_def)
  ultimately show ?thesis using t Group_init_Z4 by (simp add: returned_def)
qed


subsection \<open>C7: the closure error\<close>

text \<open>
  C7. When the operation is callable with two parameters and \<open>op(a, b)\<close> is outside the
  set for some members \<open>a\<close>, \<open>b\<close>, construction fails with the closure error. In
  particular it does for the elements 0, 1 (in any iteration order) and plain addition.
\<close>

theorem closure_violation_fails:
  "(op_callable op \<and> op_parameters op = 2 \<and> a \<in> set es \<and> b \<in> set es \<and>
      op_call op a b \<notin> set es \<longrightarrow>
      Group_init es op = Inl (TypeError ''the closure property is not satisfied'')) \<and>
   (set zs = {0, 1} \<longrightarrow>
      Group_init zs add_plain = Inl (TypeError ''the closure property is not satisfied''))"
proof (intro conjI impI)
  assume "op_callable op \<and> op_parameters op = 2 \<and> a \<in> set es \<and> b \<in> set es \<and>
      op_call op a b \<notin> set es"
  then show "Group_init es op = Inl (TypeError ''the closure property is not satisfied'')"
    by (blast intro: closure_violation)
next
  assume z: "set zs = {0, 1}"
  have "op_callable add_plain" "op_parameters add_plain = 2" "(1::int) \<in> set zs"
    "op_call add_plain 1 1 \<notin> set zs"
    using z by (simp_all add: add_plain_def)
  then show "Group_init zs add_plain = Inl (TypeError ''the closure property is not satisfied'')"
    by (blast intro: closure_violation)
qed

theorem closure_violation_fails_witness:
  "op_callable add_plain \<and> op_parameters add_plain = 2 \<and> 1 \<in> set [0, 1 :: int] \<and>
   op_call add_plain 1 1 = 2 \<and> 2 \<notin> set [0, 1 :: int] \<and> set [1, 0 :: int] = {0, 1} \<and>
   Group_init [0, 1] add_plain = Inl (TypeError ''the closure property is not satisfied'') \<and>
   Group_init [1, 0] add_plain = Inl (TypeError ''the closure property is not satisfied'')"
proof -
  have h: "op_callable add_plain \<and> op_parameters add_plain = 2 \<and> 1 \<in> set [0, 1 :: int] \<and>
      1 \<in> set [0, 1 :: int] \<and> op_call add_plain 1 1 \<notin> set [0, 1 :: int]"
    by (simp add: add_plain_def)
  have s: "set [1, 0 :: int] = {0, 1}" by auto
  have v: "op_call add_plain 1 1 = 2" by (simp add: add_plain_def)
  from closure_violation_fails [of add_plain 1 "[0, 1]" 1 "[1, 0]"] h s v
  show ?thesis by simp
qed


subsection \<open>C8: the integers modulo 4\<close>

text \<open>
  C8. Construction from the elements 0, 1, 2, 3, in whatever order the set iterates,
  with addition modulo 4 succeeds; the identity is 0, \<open>is_abelian()\<close> is true,
  \<open>inverse(1)\<close> is 3 and \<open>inverse(2)\<close> is 2.
\<close>

theorem Z4_canonical_example:
  assumes "set es = {0, 1, 2, 3}"
  shows "\<exists>g. Group_init es add_mod4 = Inr g \<and> Group_elems g = es \<and> Group_identity g = 0 \<and>
             Group_is_abelian g \<and> Group_inverse g 1 = Inr 3 \<and> Group_inverse g 2 = Inr 2"
proof -
  let ?g = "\<lparr>self_elems = es, self_op = add_mod4, self_e = 0\<rparr>"
  have "Group_is_abelian ?g"
    by (simp add: Group_is_abelian_def list_all_iff add_mod4_simps add.commute)
  moreover have "Group_inverse ?g 1 = Inr 3" "Group_inverse ?g 2 = Inr 2"
    using Z4_inverse_unique [OF assms, of 1] Z4_inverse_unique [OF assms, of 2] by simp_all
  ultimately show ?thesis
    using Z4_any_order [OF assms] by (simp add: Group_elems_def Group_identity_def)
qed

theorem Z4_canonical_example_witness:
  "set [0, 1, 2, 3 :: int] = {0, 1, 2, 3} \<and> Group_init [0, 1, 2, 3] add_mod4 = Inr Z4 \<and>
   Group_identity Z4 = 0 \<and> Group_is_abelian Z4 \<and>
   Group_inverse Z4 1 = Inr 3 \<and> Group_inverse Z4 2 = Inr 2"
proof -
  have s: "set [0, 1, 2, 3 :: int] = {0, 1, 2, 3}" by simp
  from Z4_canonical_example [OF s] Group_init_Z4 s show ?thesis by auto
qed


subsection \<open>C9: queries do not change the object\<close>

text \<open>
  C9. For a validly constructed Group, after any sequence of calls of its properties and
  methods (elems, identity, repr, str, iteration, comparison, membership test, size,
  operate, inverse, is_abelian), failing or not, the elements, the operation and the
  cached identity are what construction left.
\<close>

theorem queries_leave_state_unchanged:
  assumes "Group_init es op = Inr g"
  shows "run rp cs g = g \<and>
         self_elems (run rp cs g) = es \<and>
         self_op (run rp cs g) = op \<and>
         self_e (run rp cs g) = self_e g"
  using init_fields [OF assms] by (simp add: run_state)

theorem queries_leave_state_unchanged_witness:
  "Group_init [0, 1, 2, 3] add_mod4 = Inr Z4 \<and>
   run (\<lambda>x. ''?'')
     [Contains 7, Len, Iter, Lt (OtherSet [0, 1]), Str, Repr, Operate [1, 2], Operate [9],
      Inverse 1, Inverse 9, IsAbelian, Elems, Identity] Z4 = Z4"
  using queries_leave_state_unchanged [OF Group_init_Z4] Group_init_Z4 by simp


subsection \<open>C10: no Group on the empty set\<close>

text \<open>
  C10. With an empty elements iterable and an operation that is callable with two
  parameters, the closure and associativity checks find nothing to reject, the identity
  search finds no candidate, and construction fails with the identity error.
\<close>

theorem empty_elements_identity_error:
  assumes "op_callable op" and "op_parameters op = 2"
  shows "\<not> list_ex (\<lambda>(a, b). op_call op a b \<notin> set []) (List.product [] []) \<and>
         \<not> list_ex (\<lambda>(a, b, c). \<not> is_assoc (op_call op) a b c)
              (List.product [] (List.product [] [])) \<and>
         find (\<lambda>e. list_all (\<lambda>a. op_call op e a = op_call op a e \<and> op_call op a e = a) []) []
           = None \<and>
         Group_init [] op = Inl (TypeError ''the identity property is not satisfied'')"
  using assms by (simp add: Group_init_def)

theorem empty_elements_identity_error_witness:
  "op_callable add_mod4 \<and> op_parameters add_mod4 = 2 \<and>
   Group_init [] add_mod4 = Inl (TypeError ''the identity property is not satisfied'')"
proof -
  have c: "op_callable add_mod4" and p: "op_parameters add_mod4 = 2"
    by (simp_all add: add_mod4_def)
  from empty_elements_identity_error [OF c p] c p show ?thesis by simp
qed

end
